theory Spec2Isabelle
  imports Main "HOL-Library.Sublist"
begin

section \<open>JavaScript strings\<close>

text \<open>
  A JavaScript string is a sequence of UTF-16 code units. A code unit is modelled as a
  natural number (the real ones are below \<open>0x10000\<close>); \<open>js\<close> turns an ASCII literal
  of the source into its code units.
\<close>

type_synonym jsstring = "nat list"

definition js :: "string \<Rightarrow> jsstring" where
  "js s = map of_char s"

text \<open>\<open>s.startsWith(t)\<close> and \<open>s.includes(t)\<close>: comparison of code units, exact case.\<close>

fun startsWith :: "jsstring \<Rightarrow> jsstring \<Rightarrow> bool" where
  "startsWith s [] = True"
| "startsWith [] (t # ts) = False"
| "startsWith (c # cs) (t # ts) = (c = t \<and> startsWith cs ts)"

fun str_includes :: "jsstring \<Rightarrow> jsstring \<Rightarrow> bool" where
  "str_includes [] t = startsWith [] t"
| "str_includes (c # cs) t = (startsWith (c # cs) t \<or> str_includes cs t)"

text \<open>\<open>parts.join(sep)\<close>.\<close>

fun join :: "jsstring \<Rightarrow> jsstring list \<Rightarrow> jsstring" where
  "join sep [] = []"
| "join sep [p] = p"
| "join sep (p # q # ps) = p @ sep @ join sep (q # ps)"

text \<open>
  \<open>s.toLowerCase()\<close>. The ASCII letters \<open>A\<close>..\<open>Z\<close> go to \<open>a\<close>..\<open>z\<close> and every other
  ASCII code unit stays, whatever surrounds it. What a code unit from \<open>0x80\<close> on becomes
  is decided by the Unicode case tables of the JavaScript engine; they are not part of
  the repository and are a parameter here: \<open>tbl seen c rest\<close> is the image of the
  non-ASCII unit \<open>c\<close> that stands behind \<open>seen\<close> and in front of \<open>rest\<close> (the context
  matters for a final sigma and for surrogate pairs).
\<close>

type_synonym case_table = "jsstring \<Rightarrow> nat \<Rightarrow> jsstring \<Rightarrow> jsstring"

definition asciiLower :: "nat \<Rightarrow> nat" where
  "asciiLower c = (if 0x41 \<le> c \<and> c \<le> 0x5A then c + 0x20 else c)"

fun lowerFrom :: "case_table \<Rightarrow> jsstring \<Rightarrow> jsstring \<Rightarrow> jsstring" where
  "lowerFrom tbl seen [] = []"
| "lowerFrom tbl seen (c # rest) =
     (if c < 0x80 then [asciiLower c] else tbl seen c rest)
       @ lowerFrom tbl (seen @ [c]) rest"

definition toLowerCase :: "case_table \<Rightarrow> jsstring \<Rightarrow> jsstring" where
  "toLowerCase tbl s = lowerFrom tbl [] s"

text \<open>
  The property of the Unicode tables that the keyword search of the first stage rests
  on: the image of a non-ASCII code unit is not empty, and it has an ASCII code unit in
  two cases only, U+212A (Kelvin sign), which becomes \<open>k\<close>, and U+0130 (capital I with
  dot above), which becomes \<open>i\<close> followed by the combining dot U+0307.
\<close>

definition caseTableOk :: "case_table \<Rightarrow> bool" where
  "caseTableOk tbl \<longleftrightarrow>
     (\<forall>seen c rest. 0x80 \<le> c \<longrightarrow>
        tbl seen c rest \<noteq> [] \<and>
        ((\<forall>u \<in> set (tbl seen c rest). 0x80 \<le> u)
         \<or> tbl seen c rest = [0x6B]
         \<or> tbl seen c rest = [0x69, 0x307]))"

text \<open>A table with both exceptional entries, every other unit left as it is.\<close>

definition sampleTable :: case_table where
  "sampleTable seen c rest =
     (if c = 0x130 then [0x69, 0x307] else if c = 0x212A then [0x6B] else [c])"

section \<open>The model agent and the effects of a stage\<close>

text \<open>
  \<open>agent.stream\<close> is the only capability the stages use: it takes the prompt (one
  message of role user) and gives a stream of text chunks. The stream either ends after
  its chunks or throws after some of them (none when the call itself is rejected).
\<close>

datatype js_error = Error (message: jsstring)

datatype text_stream = Ends "jsstring list" | Throws "jsstring list" js_error

type_synonym agent = "jsstring \<Rightarrow> text_stream"

text \<open>
  What a run leaves behind: the chunks written to standard output, the calls of
  \<open>console.error\<close> (label and error), and the identifiers of the steps that were
  executed, in order.
\<close>

record world =
  stdout :: "jsstring list"
  consoleError :: "(jsstring \<times> js_error) list"
  executed :: "string list"

section \<open>Stage A: static analysis\<close>

datatype severity = Low | Medium | High | Critical

record audit_request =
  code :: jsstring
  programId :: "jsstring option"
  fileName :: "jsstring option"
  testCases :: "jsstring list option"

record static_result =
  issues :: jsstring
  severity :: severity
  issueCount :: nat

text \<open>\<open>x || d\<close> for an optional string \<open>x\<close>: \<open>undefined\<close> and the empty string are falsy.\<close>

definition orDefault :: "jsstring option \<Rightarrow> jsstring \<Rightarrow> jsstring" where
  "orDefault x d = (case x of None \<Rightarrow> d | Some s \<Rightarrow> if s = [] then d else s)"

definition staticPromptText :: "jsstring \<Rightarrow> jsstring \<Rightarrow> jsstring \<Rightarrow> jsstring" where
  "staticPromptText file pid src = concat
     [js ''\<newline>'',
      js ''You are a Solana smart contract security auditor. Analyze this code:\<newline>'',
      js ''\<newline>'',
      js ''File: '' @ file @ js ''\<newline>'',
      js ''Program ID: '' @ pid @ js ''\<newline>'',
      js ''\<newline>'',
      js ''Code:\<newline>'',
      js ''```rust\<newline>'',
      src, js ''\<newline>'',
      js ''```\<newline>'',
      js ''\<newline>'',
      js ''Focus on:\<newline>'',
      js ''- Missing signer checks (ctx.accounts.authority.is_signer)\<newline>'',
      js ''- PDA validation and seed verification\<newline>'',
      js ''- Account validation (owner, account type, constraints)\<newline>'',
      js ''- Integer overflow/underflow (use checked_add, checked_sub, etc.)\<newline>'',
      js ''- Reentrancy via CPI calls\<newline>'',
      js ''- Rent exemption and ownership checks\<newline>'',
      js ''- Access control and authorization\<newline>'',
      js ''- Proper error handling\<newline>'',
      js ''\<newline>'',
      js ''Provide detailed analysis with line numbers and severity levels.\<newline>'']"

definition staticPrompt :: "audit_request \<Rightarrow> jsstring" where
  "staticPrompt inputData =
     staticPromptText (orDefault (fileName inputData) (js ''program.rs''))
                      (orDefault (programId inputData) (js ''Unknown''))
                      (code inputData)"

text \<open>The severity label: the first of the three keywords found in the lowered text.\<close>

definition severityOf :: "case_table \<Rightarrow> jsstring \<Rightarrow> severity" where
  "severityOf tbl issuesText =
     (if str_includes (toLowerCase tbl issuesText) (js ''critical'') then Critical
      else if str_includes (toLowerCase tbl issuesText) (js ''high'') then High
      else if str_includes (toLowerCase tbl issuesText) (js ''medium'') then Medium
      else Low)"

text \<open>
  \<open>(issues.match(/<siren>|vulnerability|issue/gi) || []).length\<close>, where the first
  alternative is the siren emoji U+1F6A8, the surrogate pair \<open>D83D DEA8\<close>. The global
  match scans from the left; at each position the alternatives are tried in order, a
  match is counted and the scan goes on behind it. The pattern has no \<open>u\<close> flag, so
  ignoring case only equates an ASCII letter with its other case.
\<close>

definition issueMarkerLength :: "jsstring \<Rightarrow> nat option" where
  "issueMarkerLength s =
     (if startsWith s [0xD83D, 0xDEA8] then Some 2
      else if startsWith (map asciiLower s) (js ''vulnerability'') then Some 13
      else if startsWith (map asciiLower s) (js ''issue'') then Some 5
      else None)"

fun countMarkers :: "nat \<Rightarrow> jsstring \<Rightarrow> nat" where
  "countMarkers skip [] = 0"
| "countMarkers (Suc skip) (c # cs) = countMarkers skip cs"
| "countMarkers 0 (c # cs) =
     (case issueMarkerLength (c # cs) of
        None \<Rightarrow> countMarkers 0 cs
      | Some n \<Rightarrow> Suc (countMarkers (n - 1) cs))"

definition staticAnalysis ::
  "case_table \<Rightarrow> agent \<Rightarrow> audit_request \<Rightarrow> world \<Rightarrow> static_result \<times> world" where
  "staticAnalysis tbl ag inputData w =
     (case ag (staticPrompt inputData) of
        Ends chunks \<Rightarrow>
          (\<lparr>issues = concat chunks,
            severity = severityOf tbl (concat chunks),
            issueCount = countMarkers 0 (concat chunks)\<rparr>,
           w\<lparr>stdout := stdout w @ chunks\<rparr>)
      | Throws chunks err \<Rightarrow>
          (\<lparr>issues = js ''Static analysis failed: '' @ message err,
            severity = Medium,
            issueCount = 0\<rparr>,
           w\<lparr>stdout := stdout w @ chunks,
             consoleError := consoleError w @ [(js ''Static analysis failed:'', err)]\<rparr>))"

section \<open>Stage B: dynamic analysis\<close>

record test_result =
  testCase :: jsstring
  passed :: bool
  details :: jsstring

record dynamic_input =
  d_code :: jsstring
  d_issues :: jsstring
  d_severity :: severity
  d_issueCount :: nat
  d_testCases :: "jsstring list option"

record dynamic_result =
  simulationReport :: jsstring
  testResults :: "test_result list"

definition dynamicPrompt :: "dynamic_input \<Rightarrow> jsstring" where
  "dynamicPrompt inputData = concat
     [js ''\<newline>'',
      js ''Based on the static analysis findings, create test scenarios for this Solana program:\<newline>'',
      js ''\<newline>'',
      js ''Code:\<newline>'',
      js ''```rust\<newline>'',
      d_code inputData, js ''\<newline>'',
      js ''```\<newline>'',
      js ''\<newline>'',
      js ''Static Analysis Results:\<newline>'',
      d_issues inputData, js ''\<newline>'',
      js ''\<newline>'',
      js ''Generate test cases that would:\<newline>'',
      js ''1. Exploit identified vulnerabilities\<newline>'',
      js ''2. Test edge cases and boundary conditions\<newline>'',
      js ''3. Verify access control mechanisms\<newline>'',
      js ''4. Test integer overflow scenarios\<newline>'',
      js ''5. Simulate reentrancy attacks via CPI\<newline>'',
      js ''\<newline>'',
      js ''For each test case, describe:\<newline>'',
      js ''- What it tests\<newline>'',
      js ''- Expected behavior\<newline>'',
      js ''- Potential exploits\<newline>'',
      js ''- How to fix if vulnerable\<newline>'',
      js ''\<newline>'',
      js ''Format as a simulation report.\<newline>'']"

definition dynamicAnalysis ::
  "agent \<Rightarrow> dynamic_input \<Rightarrow> world \<Rightarrow> dynamic_result \<times> world" where
  "dynamicAnalysis ag inputData w =
     (case ag (dynamicPrompt inputData) of
        Ends chunks \<Rightarrow>
          (\<lparr>simulationReport = concat chunks,
            testResults =
              [\<lparr>testCase = js ''Authorization Check Test'',
                passed = str_includes (concat chunks) (js ''properly authorized''),
                details = js ''Testing signer validation and access control''\<rparr>,
               \<lparr>testCase = js ''PDA Validation Test'',
                passed = str_includes (concat chunks) (js ''PDA correctly validated''),
                details = js ''Testing Program Derived Address validation''\<rparr>,
               \<lparr>testCase = js ''Integer Overflow Test'',
                passed = str_includes (concat chunks) (js ''safe arithmetic''),
                details = js ''Testing for integer overflow vulnerabilities''\<rparr>]\<rparr>,
           w)
      | Throws chunks err \<Rightarrow>
          (\<lparr>simulationReport = js ''Dynamic analysis failed: '' @ message err,
            testResults = []\<rparr>,
           w\<lparr>consoleError := consoleError w @ [(js ''Dynamic analysis failed:'', err)]\<rparr>))"

section \<open>Regular expressions of stage C\<close>

text \<open>
  The two patterns are embedded the way the language definition gives their meaning: a
  matcher takes the continuation that matches the rest of the pattern and the state
  (the input left, and what group 1 captured), and backtracks by trying its
  alternatives in order. Group 1 is on every path through both patterns, so a match
  always has it.
\<close>

type_synonym match_state = "jsstring \<times> jsstring"
type_synonym continuation = "match_state \<Rightarrow> match_state option"
type_synonym matcher = "continuation \<Rightarrow> continuation"

text \<open>The class \<open>\s\<close>: white space and line terminators.\<close>

definition isWhiteSpace :: "nat \<Rightarrow> bool" where
  "isWhiteSpace c \<longleftrightarrow>
     c \<in> {0x09, 0x0A, 0x0B, 0x0C, 0x0D, 0x20, 0xA0, 0x1680, 0x2028, 0x2029, 0x202F,
          0x205F, 0x3000, 0xFEFF}
     \<or> (0x2000 \<le> c \<and> c \<le> 0x200A)"

fun dropPrefix :: "jsstring \<Rightarrow> jsstring \<Rightarrow> jsstring option" where
  "dropPrefix [] s = Some s"
| "dropPrefix (t # ts) [] = None"
| "dropPrefix (t # ts) (c # cs) = (if c = t then dropPrefix ts cs else None)"

text \<open>A literal piece of the pattern.\<close>

definition lit :: "jsstring \<Rightarrow> matcher" where
  "lit t k st = (case dropPrefix t (fst st) of None \<Rightarrow> None | Some r \<Rightarrow> k (r, snd st))"

text \<open>\<open>\s*\<close>, greedy: one more white space first, the rest of the pattern otherwise.\<close>

fun spacesFrom :: "continuation \<Rightarrow> jsstring \<Rightarrow> jsstring \<Rightarrow> match_state option" where
  "spacesFrom k [] cap = k ([], cap)"
| "spacesFrom k (c # cs) cap =
     (if isWhiteSpace c
      then (case spacesFrom k cs cap of Some r \<Rightarrow> Some r | None \<Rightarrow> k (c # cs, cap))
      else k (c # cs, cap))"

definition spaces :: matcher where
  "spaces k st = spacesFrom k (fst st) (snd st)"

text \<open>
  \<open>([\s\S]*?)\<close>, lazy and captured: the rest of the pattern first, one more code unit
  (any) otherwise.
\<close>

fun lazyFrom :: "continuation \<Rightarrow> jsstring \<Rightarrow> jsstring \<Rightarrow> match_state option" where
  "lazyFrom k acc [] = k ([], acc)"
| "lazyFrom k acc (c # cs) =
     (case k (c # cs, acc) of Some r \<Rightarrow> Some r | None \<Rightarrow> lazyFrom k (acc @ [c]) cs)"

definition group1Lazy :: matcher where
  "group1Lazy k st = lazyFrom k [] (fst st)"

text \<open>\<open>$\<close> without the \<open>m\<close> flag: the end of the input.\<close>

definition endOfInput :: matcher where
  "endOfInput k st = (if fst st = [] then k st else None)"

text \<open>\<open>a|b\<close>.\<close>

definition alt :: "matcher \<Rightarrow> matcher \<Rightarrow> matcher" where
  "alt m1 m2 k st = (case m1 k st of Some r \<Rightarrow> Some r | None \<Rightarrow> m2 k st)"

text \<open>
  \<open>text.match(pattern)\<close> for a pattern without the \<open>g\<close> flag: the first start position,
  from the left, at which the pattern matches; the result is what group 1 captured
  (\<open>match[1]\<close>), or \<open>None\<close> for \<open>null\<close>.
\<close>

fun searchFrom :: "matcher \<Rightarrow> jsstring \<Rightarrow> match_state option" where
  "searchFrom m [] = m Some ([], [])"
| "searchFrom m (c # cs) =
     (case m Some (c # cs, []) of Some r \<Rightarrow> Some r | None \<Rightarrow> searchFrom m cs)"

definition matchGroup1 :: "matcher \<Rightarrow> jsstring \<Rightarrow> jsstring option" where
  "matchGroup1 m s = map_option snd (searchFrom m s)"

text \<open>\<open>/FIXED_CODE:\s*```rust\n([\s\S]*?)\n```/\<close>\<close>

definition fixedCodePattern :: matcher where
  "fixedCodePattern =
     lit (js ''FIXED_CODE:'') \<circ> spaces \<circ> lit (js ''```rust\<newline>'') \<circ> group1Lazy
       \<circ> lit (js ''\<newline>```'')"

text \<open>\<open>/CHANGES_SUMMARY:\s*([\s\S]*?)(?:\n\n|\n$|$)/\<close>\<close>

definition summaryPattern :: matcher where
  "summaryPattern =
     lit (js ''CHANGES_SUMMARY:'') \<circ> spaces \<circ> group1Lazy
       \<circ> alt (lit (js ''\<newline>\<newline>''))
             (alt (lit (js ''\<newline>'') \<circ> endOfInput) endOfInput)"

section \<open>Stage C: auto-fix\<close>

record fix_input =
  f_code :: jsstring
  f_issues :: jsstring
  f_simulationReport :: jsstring
  f_testResults :: "test_result list"

record fix_result =
  fixedCode :: jsstring
  changesSummary :: jsstring
  confidence :: nat

definition testResultLine :: "test_result \<Rightarrow> jsstring" where
  "testResultLine t = concat
     [js ''- '', testCase t, js '': '',
      (if passed t then js ''PASSED'' else js ''FAILED''),
      js '' ('', details t, js '')'']"

definition fixPrompt :: "fix_input \<Rightarrow> jsstring" where
  "fixPrompt inputData = concat
     [js ''\<newline>'',
      js ''Given this Rust/Anchor Solana contract:\<newline>'',
      js ''```rust\<newline>'',
      f_code inputData, js ''\<newline>'',
      js ''```\<newline>'',
      js ''\<newline>'',
      js ''Issues found:\<newline>'',
      f_issues inputData, js ''\<newline>'',
      js ''\<newline>'',
      js ''Simulation results: '', f_simulationReport inputData, js ''\<newline>'',
      js ''\<newline>'',
      js ''Test results:\<newline>'',
      join (js ''\<newline>'') (map testResultLine (f_testResults inputData)), js ''\<newline>'',
      js ''\<newline>'',
      js ''Rewrite the code with security fixes. For each fix:\<newline>'',
      js ''1. Add clear comments explaining what was fixed\<newline>'',
      js ''2. Use proper Anchor constraints and validations\<newline>'',
      js ''3. Implement safe arithmetic operations\<newline>'',
      js ''4. Add proper error handling\<newline>'',
      js ''5. Ensure all accounts are properly validated\<newline>'',
      js ''\<newline>'',
      js ''After the fixed code, provide a summary of changes made.\<newline>'',
      js ''\<newline>'',
      js ''Output format:\<newline>'',
      js ''FIXED_CODE:\<newline>'',
      js ''```rust\<newline>'',
      js ''[your fixed code here]\<newline>'',
      js ''```\<newline>'',
      js ''\<newline>'',
      js ''CHANGES_SUMMARY:\<newline>'',
      js ''[bullet points of what was fixed]\<newline>'']"

definition autoFix :: "agent \<Rightarrow> fix_input \<Rightarrow> world \<Rightarrow> fix_result \<times> world" where
  "autoFix ag inputData w =
     (case ag (fixPrompt inputData) of
        Ends chunks \<Rightarrow>
          (let response = concat chunks;
               codeMatch = matchGroup1 fixedCodePattern response;
               summaryMatch = matchGroup1 summaryPattern response
           in (\<lparr>fixedCode = (case codeMatch of Some g \<Rightarrow> g | None \<Rightarrow> response),
                changesSummary =
                  (case summaryMatch of Some g \<Rightarrow> g | None \<Rightarrow> js ''Code fixes applied''),
                confidence = (if codeMatch \<noteq> None \<and> summaryMatch \<noteq> None then 85 else 60)\<rparr>,
               w))
      | Throws chunks err \<Rightarrow>
          (\<lparr>fixedCode = f_code inputData,
            changesSummary = js ''Auto-fix failed: '' @ message err,
            confidence = 0\<rparr>,
           w\<lparr>consoleError := consoleError w @ [(js ''Auto-fix failed:'', err)]\<rparr>))"

section \<open>The workflow\<close>


text \<open>
  Modelled from the spec: \<open>createWorkflow\<close> and \<open>then\<close> belong to the workflow engine,
  which is not in the repository. The chain is as the specification describes it: the
  three steps run in the order they were chained and none is skipped, each recorded by
  its \<open>id\<close>; the result of stage A feeds stage B, and the result of stage B with the
  original code feeds stage C. The entry schema is handed to the engine together with
  the chain; the repository has no code of its own that checks a request against it
  before stage A runs, and the schema of stage A takes any string as code. A run ends
  with the results of the three steps (\<open>Inr\<close>); the steps catch what the agent throws, so
  no run of the chain ends in a failure (\<open>Inl\<close>).
\<close>

definition auditorWorkflow ::
  "case_table \<Rightarrow> agent \<Rightarrow> audit_request \<Rightarrow> world
     \<Rightarrow> (jsstring list + static_result \<times> dynamic_result \<times> fix_result) \<times> world" where
  "auditorWorkflow tbl ag inputData w =
     (let (a, w1) = staticAnalysis tbl ag inputData
                      (w\<lparr>executed := executed w @ [''static-analysis'']\<rparr>);
          (b, w2) = dynamicAnalysis ag
                      \<lparr>d_code = code inputData, d_issues = issues a,
                       d_severity = severity a, d_issueCount = issueCount a,
                       d_testCases = testCases inputData\<rparr>
                      (w1\<lparr>executed := executed w1 @ [''dynamic-analysis'']\<rparr>);
          (c, w3) = autoFix ag
                      \<lparr>f_code = code inputData, f_issues = issues a,
                       f_simulationReport = simulationReport b,
                       f_testResults = testResults b\<rparr>
                      (w2\<lparr>executed := executed w2 @ [''auto-fix'']\<rparr>)
      in (Inr (a, b, c), w3))"

section \<open>The helper validateSolanaProgram\<close>

record validation =
  isValid :: bool
  errors :: "jsstring list"

definition validateSolanaProgram :: "jsstring \<Rightarrow> validation" where
  "validateSolanaProgram src =
     (let errors0 = [];
          errors1 =
            (if \<not> str_includes src (js ''use anchor_lang::prelude::*'')
                \<and> \<not> str_includes src (js ''use solana_program::'')
             then errors0 @ [js ''Missing Solana/Anchor imports''] else errors0);
          errors2 =
            (if \<not> str_includes src (js ''#[program]'')
                \<and> \<not> str_includes src (js ''entrypoint!'')
             then errors1 @ [js ''Missing program entry point''] else errors1);
          errors3 =
            (if str_includes src (js ''unwrap()'')
             then errors2 @ [js ''Found unwrap() calls - use proper error handling'']
             else errors2)
      in \<lparr>isValid = (length errors3 = 0), errors = errors3\<rparr>)"

section \<open>What the specification says, and sample inputs\<close>

text \<open>
  The specification's description of the severity label: a search of the text for the
  keyword in any letter case. Two code units are the same letter when they are equal or
  one is the ASCII capital of the other.
\<close>

definition sameLetter :: "nat \<Rightarrow> nat \<Rightarrow> bool" where
  "sameLetter k c \<longleftrightarrow>
     c = k \<or> (0x41 \<le> c \<and> c \<le> 0x5A \<and> c + 0x20 = k)
           \<or> (0x41 \<le> k \<and> k \<le> 0x5A \<and> k + 0x20 = c)"

fun matchesIgnoringCase :: "jsstring \<Rightarrow> jsstring \<Rightarrow> bool" where
  "matchesIgnoringCase [] s = True"
| "matchesIgnoringCase (k # ks) [] = False"
| "matchesIgnoringCase (k # ks) (c # cs) = (sameLetter k c \<and> matchesIgnoringCase ks cs)"

fun containsIgnoringCase :: "jsstring \<Rightarrow> jsstring \<Rightarrow> bool" where
  "containsIgnoringCase [] kw = matchesIgnoringCase kw []"
| "containsIgnoringCase (c # cs) kw =
     (matchesIgnoringCase kw (c # cs) \<or> containsIgnoringCase cs kw)"

definition spec_severity :: "jsstring \<Rightarrow> severity" where
  "spec_severity issuesText =
     (if containsIgnoringCase issuesText (js ''critical'') then Critical
      else if containsIgnoringCase issuesText (js ''high'') then High
      else if containsIgnoringCase issuesText (js ''medium'') then Medium
      else Low)"

text \<open>
  Two properties of a keyword used in the proofs: it is written in ASCII without
  capitals; and no piece of it can come out of the two exceptional table entries (it
  has no \<open>k\<close> and does not end in \<open>i\<close>).
\<close>

definition lowerKeyword :: "jsstring \<Rightarrow> bool" where
  "lowerKeyword kw \<longleftrightarrow> (\<forall>k \<in> set kw. k < 0x80 \<and> \<not> (0x41 \<le> k \<and> k \<le> 0x5A))"

definition tableSafe :: "jsstring \<Rightarrow> bool" where
  "tableSafe kw \<longleftrightarrow>
     (\<forall>k \<in> set kw. k < 0x80 \<and> k \<noteq> 0x6B) \<and> (kw \<noteq> [] \<longrightarrow> last kw \<noteq> 0x69)"

text \<open>An agent that gives the same stream whatever the prompt, and a fresh world.\<close>

definition replyWith :: "text_stream \<Rightarrow> agent" where
  "replyWith r prompt = r"

definition emptyWorld :: world where
  "emptyWorld = \<lparr>stdout = [], consoleError = [], executed = []\<rparr>"

definition requestFor :: "jsstring \<Rightarrow> audit_request" where
  "requestFor src = \<lparr>code = src, programId = None, fileName = None, testCases = None\<rparr>"

definition dynamicInputFor :: "jsstring \<Rightarrow> dynamic_input" where
  "dynamicInputFor src =
     \<lparr>d_code = src, d_issues = js ''No issues found'', d_severity = Low, d_issueCount = 0,
      d_testCases = None\<rparr>"

definition fixInputFor :: "jsstring \<Rightarrow> fix_input" where
  "fixInputFor src =
     \<lparr>f_code = src, f_issues = js ''No issues found'', f_simulationReport = js ''No report'',
      f_testResults = []\<rparr>"

text \<open>A response in the format the third prompt asks for, in two chunks.\<close>

definition fullReply :: "jsstring list" where
  "fullReply =
     [js ''Here you go. FIXED_CODE:\<newline>```rust\<newline>fn f() {}\<newline>'',
      js ''```\<newline>\<newline>CHANGES_SUMMARY:\<newline>- added checks\<newline>\<newline>Bye'']"

section \<open>Substrings\<close>

lemma startsWith_prefix: "startsWith s t = prefix t s"
  by (induction s t rule: startsWith.induct) auto

lemma str_includes_sublist: "str_includes s t = sublist t s"
  by (induction s) (auto simp: startsWith_prefix sublist_Cons_right)

lemma sublist_drop_prefix:
  "sublist xs ys \<Longrightarrow> \<exists>j\<le>length ys. prefix xs (drop j ys)"
proof -
  assume "sublist xs ys"
  then obtain ps ss where "ys = ps @ xs @ ss" by (auto simp: sublist_def)
  then have "length ps \<le> length ys" "prefix xs (drop (length ps) ys)" by auto
  then show ?thesis by blast
qed

lemma prefix_drop_sublist: "prefix xs (drop j ys) \<Longrightarrow> sublist xs ys"
proof -
  assume "prefix xs (drop j ys)"
  then obtain ss where "drop j ys = xs @ ss" by (auto simp: prefix_def)
  then have "ys = take j ys @ xs @ ss" by (metis append_take_drop_id)
  then show ?thesis unfolding sublist_def by blast
qed

lemma sublist_concat_member: "xs \<in> set xss \<Longrightarrow> sublist xs (concat xss)"
proof -
  assume "xs \<in> set xss"
  then obtain ys zs where "xss = ys @ xs # zs" by (auto dest: split_list)
  then have "concat xss = concat ys @ xs @ concat zs" by simp
  then show ?thesis unfolding sublist_def by blast
qed

section \<open>Lower-casing and the search that ignores case\<close>

lemma tableSafe_tl: "tableSafe (k # ks) \<Longrightarrow> tableSafe ks"
  by (auto simp: tableSafe_def)

lemma asciiLower_sameLetter: "sameLetter (asciiLower c) c"
  by (auto simp: sameLetter_def asciiLower_def)

lemma sameLetter_lower:
  "sameLetter k c \<Longrightarrow> k < 0x80 \<Longrightarrow> \<not> (0x41 \<le> k \<and> k \<le> 0x5A)
     \<Longrightarrow> c < 0x80 \<and> asciiLower c = k"
  by (auto simp: sameLetter_def asciiLower_def)

text \<open>A keyword found in the text in some letter case is found in the lowered text.\<close>

lemma matches_lower:
  "lowerKeyword kw \<Longrightarrow> matchesIgnoringCase kw s \<Longrightarrow> prefix kw (lowerFrom tbl seen s)"
proof (induction kw s arbitrary: seen rule: matchesIgnoringCase.induct)
  case (3 k ks c cs)
  from "3.prems" have k: "k < 0x80" "\<not> (0x41 \<le> k \<and> k \<le> 0x5A)" and ks: "lowerKeyword ks"
    by (auto simp: lowerKeyword_def)
  from "3.prems" have sl: "sameLetter k c" and m: "matchesIgnoringCase ks cs" by auto
  from sameLetter_lower[OF sl k] have c: "c < 0x80" "asciiLower c = k" by auto
  from "3.IH"[OF ks m] have "prefix ks (lowerFrom tbl (seen @ [c]) cs)" .
  with c show ?case by simp
qed auto

lemma contains_lower:
  "lowerKeyword kw \<Longrightarrow> containsIgnoringCase s kw \<Longrightarrow> sublist kw (lowerFrom tbl seen s)"
proof (induction s arbitrary: seen)
  case Nil
  then show ?case by (cases kw) auto
next
  case (Cons c cs)
  from Cons.prems(2) consider "matchesIgnoringCase kw (c # cs)" | "containsIgnoringCase cs kw"
    by auto
  then show ?case
  proof cases
    case 1
    from matches_lower[OF Cons.prems(1) 1] show ?thesis
      by (rule prefix_imp_sublist)
  next
    case 2
    from Cons.IH[OF Cons.prems(1) 2] have "sublist kw (lowerFrom tbl (seen @ [c]) cs)" .
    then show ?thesis by (simp add: sublist_append)
  qed
qed

text \<open>
  Conversely, with the engine's tables a keyword found in the lowered text stands in
  the text itself, in some letter case: no part of it is the image of a non-ASCII unit.
\<close>

lemma table_block:
  assumes "caseTableOk tbl" "0x80 \<le> c"
  shows "tbl seen c rest \<noteq> []"
    and "(\<forall>u \<in> set (tbl seen c rest). 0x80 \<le> u) \<or> tbl seen c rest = [0x6B]
           \<or> tbl seen c rest = [0x69, 0x307]"
  using assms unfolding caseTableOk_def by blast+

lemma lower_matches:
  assumes ok: "caseTableOk tbl"
  shows "tableSafe kw \<Longrightarrow> prefix kw (lowerFrom tbl seen s) \<Longrightarrow> matchesIgnoringCase kw s"
proof (induction kw s arbitrary: seen rule: matchesIgnoringCase.induct)
  case (1 s)
  then show ?case by simp
next
  case (2 k ks)
  then show ?case by simp
next
  case (3 k ks c cs)
  show ?case
  proof (cases "c < 0x80")
    case True
    with "3.prems"(2) have k: "k = asciiLower c"
      and p: "prefix ks (lowerFrom tbl (seen @ [c]) cs)"
      by auto
    from "3.IH"[OF tableSafe_tl[OF "3.prems"(1)] p] k asciiLower_sameLetter[of c]
    show ?thesis by simp
  next
    case False
    then have c: "0x80 \<le> c" by simp
    let ?b = "tbl seen c cs"
    from "3.prems"(2) False have p: "prefix (k # ks) (?b @ lowerFrom tbl (seen @ [c]) cs)"
      by simp
    from "3.prems"(1) have k: "k < 0x80" "k \<noteq> 0x6B" by (auto simp: tableSafe_def)
    from table_block[OF ok c, of seen cs] obtain b bs where b: "?b = b # bs"
      by (cases ?b) auto
    with p have kb: "k = b" and p2: "prefix ks (bs @ lowerFrom tbl (seen @ [c]) cs)" by auto
    from table_block(2)[OF ok c, of seen cs] b kb k have bs: "b = 0x69" "bs = [0x307]"
      by auto
    show ?thesis
    proof (cases ks)
      case Nil
      with "3.prems"(1) kb bs show ?thesis by (simp add: tableSafe_def)
    next
      case (Cons k2 ks2)
      with p2 bs have "k2 = 0x307" by simp
      with "3.prems"(1) Cons show ?thesis by (simp add: tableSafe_def)
    qed
  qed
qed

lemma lower_contains:
  assumes ok: "caseTableOk tbl" and kw: "tableSafe kw" "kw \<noteq> []"
  shows "sublist kw (lowerFrom tbl seen s) \<Longrightarrow> containsIgnoringCase s kw"
proof (induction s arbitrary: seen)
  case Nil
  with kw show ?case by simp
next
  case (Cons c cs)
  let ?b = "if c < 0x80 then [asciiLower c] else tbl seen c cs"
  let ?L = "lowerFrom tbl (seen @ [c]) cs"
  from kw obtain k ks where kks: "kw = k # ks" by (cases kw) auto
  from kw kks have k: "k < 0x80" "k \<noteq> 0x6B" by (auto simp: tableSafe_def)
  from Cons.prems have "sublist kw (?b @ ?L)" by simp
  then obtain j where j: "j \<le> length (?b @ ?L)" and pj: "prefix kw (drop j (?b @ ?L))"
    by (auto dest: sublist_drop_prefix)
  show ?case
  proof (cases "length ?b \<le> j")
    case True
    with pj have "prefix kw (drop (j - length ?b) ?L)" by simp
    then have "sublist kw ?L"
      by (rule prefix_drop_sublist)
    from Cons.IH[OF this] show ?thesis by simp
  next
    case False
    then have jl: "j < length ?b" by simp
    show ?thesis
    proof (cases "c < 0x80")
      case True
      with jl have "j = 0" by simp
      with pj have "prefix kw (lowerFrom tbl seen (c # cs))" by simp
      from lower_matches[OF ok kw(1) this] show ?thesis by simp
    next
      case False
      then have c: "0x80 \<le> c" by simp
      from jl False have jb: "j < length (tbl seen c cs)" by simp
      from pj False jb kks have hd: "k = tbl seen c cs ! j"
        by (auto simp: prefix_def drop_append Cons_nth_drop_Suc[symmetric])
      from jb hd have mem: "k \<in> set (tbl seen c cs)" by simp
      have "\<not> (\<forall>u \<in> set (tbl seen c cs). 0x80 \<le> u)"
      proof
        assume "\<forall>u \<in> set (tbl seen c cs). 0x80 \<le> u"
        with mem have "0x80 \<le> k" by blast
        with k show False by simp
      qed
      with table_block(2)[OF ok c, of seen cs] jb hd k
      have b: "tbl seen c cs = [0x69, 0x307]" "j = 0"
        by (auto simp: nth_Cons' split: if_splits)
      with pj False have "prefix kw (lowerFrom tbl seen (c # cs))" by simp
      from lower_matches[OF ok kw(1) this] show ?thesis by simp
    qed
  qed
qed

lemma keyword_search:
  assumes "lowerKeyword kw" "tableSafe kw" "kw \<noteq> []" "caseTableOk tbl"
  shows "str_includes (toLowerCase tbl s) kw = containsIgnoringCase s kw"
  using assms contains_lower[of kw s tbl "[]"] lower_contains[of tbl kw "[]" s]
  by (auto simp: str_includes_sublist toLowerCase_def)

lemma keywords_ok:
  "lowerKeyword (js ''critical'')" "tableSafe (js ''critical'')"
  "lowerKeyword (js ''high'')" "tableSafe (js ''high'')"
  "lowerKeyword (js ''medium'')" "tableSafe (js ''medium'')"
  by (simp_all add: lowerKeyword_def tableSafe_def js_def)

lemma sampleTable_ok: "caseTableOk sampleTable"
  by (simp add: caseTableOk_def sampleTable_def)

lemma severityOf_spec: "caseTableOk tbl \<Longrightarrow> severityOf tbl s = spec_severity s"
  using keywords_ok by (simp add: severityOf_def spec_severity_def keyword_search js_def)

lemma severityOf_critical:
  "containsIgnoringCase s (js ''critical'') \<Longrightarrow> severityOf tbl s = Critical"
  using contains_lower[OF keywords_ok(1), of s tbl "[]"]
  by (simp add: severityOf_def str_includes_sublist toLowerCase_def)

section \<open>What the two patterns match\<close>

text \<open>
  Each matcher succeeds exactly on the inputs that the piece of the pattern describes,
  whatever the rest of the pattern (the continuation) is.
\<close>

lemma dropPrefix_append: "dropPrefix t (t @ r) = Some r"
  by (induction t) auto

lemma dropPrefix_iff: "dropPrefix t s = Some r \<longleftrightarrow> s = t @ r"
  by (induction t s rule: dropPrefix.induct) auto

lemma lit_matches:
  "lit t k st \<noteq> None \<longleftrightarrow> (\<exists>r. fst st = t @ r \<and> k (r, snd st) \<noteq> None)"
  by (auto simp: lit_def dropPrefix_iff dropPrefix_append split: option.splits)

lemma spacesFrom_matches:
  "spacesFrom k s cap \<noteq> None
     \<longleftrightarrow> (\<exists>ws r. s = ws @ r \<and> (\<forall>c \<in> set ws. isWhiteSpace c) \<and> k (r, cap) \<noteq> None)"
proof (induction s)
  case Nil
  then show ?case by simp
next
  case (Cons c cs)
  show ?case
  proof
    assume "spacesFrom k (c # cs) cap \<noteq> None"
    then consider "isWhiteSpace c" "spacesFrom k cs cap \<noteq> None" | "k (c # cs, cap) \<noteq> None"
      by (auto split: if_splits option.splits)
    then show "\<exists>ws r. c # cs = ws @ r \<and> (\<forall>c \<in> set ws. isWhiteSpace c) \<and> k (r, cap) \<noteq> None"
    proof cases
      case 1
      with Cons.IH obtain ws r where "cs = ws @ r" "\<forall>c \<in> set ws. isWhiteSpace c" "k (r, cap) \<noteq> None"
        by auto
      with 1 have "c # cs = (c # ws) @ r \<and> (\<forall>c \<in> set (c # ws). isWhiteSpace c) \<and> k (r, cap) \<noteq> None"
        by simp
      then show ?thesis by blast
    next
      case 2
      then have "c # cs = [] @ (c # cs) \<and> (\<forall>c \<in> set []. isWhiteSpace c) \<and> k (c # cs, cap) \<noteq> None"
        by simp
      then show ?thesis by blast
    qed
  next
    assume "\<exists>ws r. c # cs = ws @ r \<and> (\<forall>c \<in> set ws. isWhiteSpace c) \<and> k (r, cap) \<noteq> None"
    then obtain ws r where w: "c # cs = ws @ r" "\<forall>c \<in> set ws. isWhiteSpace c" "k (r, cap) \<noteq> None"
      by blast
    show "spacesFrom k (c # cs) cap \<noteq> None"
    proof (cases ws)
      case Nil
      with w show ?thesis by (auto split: option.splits)
    next
      case (Cons a as)
      with w have "a = c" "cs = as @ r" "isWhiteSpace c" "\<forall>c \<in> set as. isWhiteSpace c" by auto
      with w(3) Cons.IH have "spacesFrom k cs cap \<noteq> None" by blast
      with \<open>isWhiteSpace c\<close> show ?thesis by (auto split: option.splits)
    qed
  qed
qed

lemma lazyFrom_matches:
  "lazyFrom k acc s \<noteq> None \<longleftrightarrow> (\<exists>body r. s = body @ r \<and> k (r, acc @ body) \<noteq> None)"
proof (induction s arbitrary: acc)
  case Nil
  then show ?case by simp
next
  case (Cons c cs)
  show ?case
  proof
    assume "lazyFrom k acc (c # cs) \<noteq> None"
    then consider "k (c # cs, acc) \<noteq> None" | "lazyFrom k (acc @ [c]) cs \<noteq> None"
      by (auto split: option.splits)
    then show "\<exists>body r. c # cs = body @ r \<and> k (r, acc @ body) \<noteq> None"
    proof cases
      case 1
      then have "c # cs = [] @ (c # cs) \<and> k (c # cs, acc @ []) \<noteq> None" by simp
      then show ?thesis by blast
    next
      case 2
      with Cons.IH obtain body r where "cs = body @ r" "k (r, (acc @ [c]) @ body) \<noteq> None"
        by blast
      then have "c # cs = (c # body) @ r \<and> k (r, acc @ (c # body)) \<noteq> None" by simp
      then show ?thesis by blast
    qed
  next
    assume "\<exists>body r. c # cs = body @ r \<and> k (r, acc @ body) \<noteq> None"
    then obtain body r where b: "c # cs = body @ r" "k (r, acc @ body) \<noteq> None" by blast
    show "lazyFrom k acc (c # cs) \<noteq> None"
    proof (cases body)
      case Nil
      with b show ?thesis by (auto split: option.splits)
    next
      case (Cons a as)
      with b have "cs = as @ r" "k (r, (acc @ [c]) @ as) \<noteq> None" by auto
      with Cons.IH have "lazyFrom k (acc @ [c]) cs \<noteq> None" by blast
      then show ?thesis by (auto split: option.splits)
    qed
  qed
qed

lemma searchFrom_matches:
  "searchFrom m s \<noteq> None \<longleftrightarrow> (\<exists>pre r. s = pre @ r \<and> m Some (r, []) \<noteq> None)"
proof (induction s)
  case Nil
  then show ?case by simp
next
  case (Cons c cs)
  show ?case
  proof
    assume "searchFrom m (c # cs) \<noteq> None"
    then consider "m Some (c # cs, []) \<noteq> None" | "searchFrom m cs \<noteq> None"
      by (auto split: option.splits)
    then show "\<exists>pre r. c # cs = pre @ r \<and> m Some (r, []) \<noteq> None"
    proof cases
      case 1
      then have "c # cs = [] @ (c # cs) \<and> m Some (c # cs, []) \<noteq> None" by simp
      then show ?thesis by blast
    next
      case 2
      with Cons.IH obtain pre r where "cs = pre @ r" "m Some (r, []) \<noteq> None" by blast
      then have "c # cs = (c # pre) @ r \<and> m Some (r, []) \<noteq> None" by simp
      then show ?thesis by blast
    qed
  next
    assume "\<exists>pre r. c # cs = pre @ r \<and> m Some (r, []) \<noteq> None"
    then obtain pre r where b: "c # cs = pre @ r" "m Some (r, []) \<noteq> None" by blast
    show "searchFrom m (c # cs) \<noteq> None"
    proof (cases pre)
      case Nil
      with b show ?thesis by (auto split: option.splits)
    next
      case (Cons a as)
      with b have "cs = as @ r" by auto
      with b(2) Cons.IH have "searchFrom m cs \<noteq> None" by blast
      then show ?thesis by (auto split: option.splits)
    qed
  qed
qed

lemma matchGroup1_matches:
  "matchGroup1 m s \<noteq> None \<longleftrightarrow> (\<exists>pre r. s = pre @ r \<and> m Some (r, []) \<noteq> None)"
  using searchFrom_matches[of m s] by (simp add: matchGroup1_def)

lemma spaces_matches:
  "spaces k st \<noteq> None
     \<longleftrightarrow> (\<exists>ws r. fst st = ws @ r \<and> (\<forall>c \<in> set ws. isWhiteSpace c) \<and> k (r, snd st) \<noteq> None)"
  by (simp only: spaces_def spacesFrom_matches)

lemma group1Lazy_matches:
  "group1Lazy k st \<noteq> None \<longleftrightarrow> (\<exists>body r. fst st = body @ r \<and> k (r, body) \<noteq> None)"
  by (simp only: group1Lazy_def lazyFrom_matches append_Nil)

lemma endOfInput_matches: "endOfInput k st \<noteq> None \<longleftrightarrow> fst st = [] \<and> k st \<noteq> None"
  by (simp add: endOfInput_def)

lemma alt_matches: "alt m1 m2 k st \<noteq> None \<longleftrightarrow> m1 k st \<noteq> None \<or> m2 k st \<noteq> None"
  by (auto simp: alt_def split: option.splits)

lemma fixedCodePattern_at:
  "fixedCodePattern Some (s, cap) \<noteq> None \<longleftrightarrow>
     (\<exists>ws body post. s = js ''FIXED_CODE:'' @ ws @ js ''```rust\<newline>'' @ body @ js ''\<newline>```'' @ post
        \<and> (\<forall>c \<in> set ws. isWhiteSpace c))"
  unfolding fixedCodePattern_def comp_def
  apply (simp only: lit_matches spaces_matches group1Lazy_matches fst_conv snd_conv)
  apply (simp del: not_None_eq)
  apply blast
  done

text \<open>
  The last alternative of the second pattern is the end of the input, which the lazy
  group always reaches: the pattern matches wherever its marker stands.
\<close>

lemma summaryPattern_at:
  "summaryPattern Some (s, cap) \<noteq> None \<longleftrightarrow> prefix (js ''CHANGES_SUMMARY:'') s"
proof -
  let ?tail = "alt (lit (js ''\<newline>\<newline>'')) (alt (lit (js ''\<newline>'') \<circ> endOfInput) endOfInput) Some"
  have tail: "?tail ([], body) \<noteq> None" for body
    by (simp add: alt_matches endOfInput_matches del: not_None_eq)
  have rest: "spaces (group1Lazy ?tail) (r, cap) \<noteq> None" for r
  proof -
    have "r = r @ [] \<and> ?tail ([], r) \<noteq> None" using tail by simp
    then have "group1Lazy ?tail (r, cap) \<noteq> None"
      unfolding group1Lazy_matches fst_conv by blast
    then have "r = [] @ r \<and> (\<forall>c \<in> set []. isWhiteSpace c) \<and> group1Lazy ?tail (r, cap) \<noteq> None"
      by simp
    then show ?thesis unfolding spaces_matches fst_conv snd_conv by blast
  qed
  show ?thesis
    unfolding summaryPattern_def comp_def
    by (simp only: lit_matches fst_conv snd_conv rest[unfolded comp_def] prefix_def) simp
qed

lemma fixedCodePattern_matches:
  "matchGroup1 fixedCodePattern s \<noteq> None \<longleftrightarrow>
     (\<exists>pre ws body post.
        s = pre @ js ''FIXED_CODE:'' @ ws @ js ''```rust\<newline>'' @ body @ js ''\<newline>```'' @ post
        \<and> (\<forall>c \<in> set ws. isWhiteSpace c))"
  unfolding matchGroup1_matches fixedCodePattern_at by blast

lemma summaryPattern_matches:
  "matchGroup1 summaryPattern s \<noteq> None \<longleftrightarrow> sublist (js ''CHANGES_SUMMARY:'') s"
  unfolding matchGroup1_matches summaryPattern_at sublist_def prefix_def by blast

text \<open>The matchers run on a response in the expected format and on one without markers.\<close>

lemma matcher_eval:
  "matchGroup1 fixedCodePattern (concat fullReply) = Some (js ''fn f() {}'')"
  "matchGroup1 summaryPattern (concat fullReply) = Some (js ''- added checks'')"
  "matchGroup1 fixedCodePattern (concat [js ''No changes needed.'']) = None"
  "matchGroup1 summaryPattern (concat [js ''No changes needed.'']) = None"
  by (simp_all add: fullReply_def js_def matchGroup1_def fixedCodePattern_def summaryPattern_def
        lit_def spaces_def group1Lazy_def alt_def endOfInput_def isWhiteSpace_def)

section \<open>The steps and the chain\<close>

text \<open>
  No step touches the record of executed steps, and a request goes through all three of
  them.
\<close>

lemma staticAnalysis_executed: "executed (snd (staticAnalysis tbl ag r w)) = executed w"
  by (simp add: staticAnalysis_def split: text_stream.splits)

lemma dynamicAnalysis_executed: "executed (snd (dynamicAnalysis ag r w)) = executed w"
  by (simp add: dynamicAnalysis_def split: text_stream.splits)

lemma autoFix_executed: "executed (snd (autoFix ag r w)) = executed w"
  by (simp add: autoFix_def Let_def split: text_stream.splits)

lemma staticAnalysis_result: "fst (staticAnalysis tbl ag r w) = fst (staticAnalysis tbl ag r w')"
  by (simp add: staticAnalysis_def split: text_stream.splits)



lemma workflow_runs:
  "\<exists>b c w'. auditorWorkflow tbl ag request w
                  = (Inr (fst (staticAnalysis tbl ag request w), b, c), w')
         \<and> executed w' = executed w @ [''static-analysis'', ''dynamic-analysis'', ''auto-fix'']"
  using staticAnalysis_result[of tbl ag request "w\<lparr>executed := executed w @ [''static-analysis'']\<rparr>" w]
  by (simp add: auditorWorkflow_def Let_def case_prod_beta
        staticAnalysis_executed dynamicAnalysis_executed autoFix_executed)

lemma workflow_executed:
  "executed (snd (auditorWorkflow tbl ag request w))
     = executed w @ [''static-analysis'', ''dynamic-analysis'', ''auto-fix'']"
  using workflow_runs[of tbl ag request w] by auto

lemma error_messages_distinct:
  "js ''Missing Solana/Anchor imports'' \<noteq> js ''Missing program entry point''"
  "js ''Missing Solana/Anchor imports'' \<noteq> js ''Found unwrap() calls - use proper error handling''"
  "js ''Missing program entry point'' \<noteq> js ''Found unwrap() calls - use proper error handling''"
  by (simp_all add: js_def)

section \<open>Stage A: severity and failure\<close>

text \<open>
  Claim C1. When the model call succeeds, the severity that stage A returns is a function
  of the accumulated response text and of nothing else of the run. It is \<open>critical\<close>
  whenever the text holds ``critical'' in any letter case, whatever else it holds; and,
  the engine's case tables being as described, it is the label of the first of
  ``critical'', ``high'' and ``medium'' that the text holds in any letter case, and
  \<open>low\<close> when it holds none.
\<close>

theorem staticAnalysis_severity:
  assumes "ag (staticPrompt inputData) = Ends chunks"
  shows "severity (fst (staticAnalysis tbl ag inputData w)) = severityOf tbl (concat chunks)
       \<and> (containsIgnoringCase (concat chunks) (js ''critical'')
            \<longrightarrow> severity (fst (staticAnalysis tbl ag inputData w)) = Critical)
       \<and> (caseTableOk tbl
            \<longrightarrow> severity (fst (staticAnalysis tbl ag inputData w))
                  = spec_severity (concat chunks))"
  using assms by (simp add: staticAnalysis_def severityOf_spec severityOf_critical)

theorem staticAnalysis_severity_witness:
  "caseTableOk sampleTable
   \<and> containsIgnoringCase (concat [js ''Severity: Cri'', js ''TICAL; High; medium'']) (js ''critical'')
   \<and> severity (fst (staticAnalysis sampleTable
        (replyWith (Ends [js ''Severity: Cri'', js ''TICAL; High; medium'']))
        (requestFor (js ''fn main() {}'')) emptyWorld)) = Critical
   \<and> spec_severity (concat [js ''Severity: Cri'', js ''TICAL; High; medium'']) = Critical"
proof -
  have ag: "replyWith (Ends [js ''Severity: Cri'', js ''TICAL; High; medium''])
              (staticPrompt (requestFor (js ''fn main() {}'')))
            = Ends [js ''Severity: Cri'', js ''TICAL; High; medium'']"
    by (simp add: replyWith_def)
  have c: "containsIgnoringCase (concat [js ''Severity: Cri'', js ''TICAL; High; medium''])
             (js ''critical'')"
    by (simp add: js_def sameLetter_def)
  note run = staticAnalysis_severity
         [where ag = "replyWith (Ends [js ''Severity: Cri'', js ''TICAL; High; medium''])"
            and inputData = "requestFor (js ''fn main() {}'')"
            and chunks = "[js ''Severity: Cri'', js ''TICAL; High; medium'']"
            and tbl = sampleTable and w = emptyWorld, OF ag]
  from run c have 1: "severity (fst (staticAnalysis sampleTable
        (replyWith (Ends [js ''Severity: Cri'', js ''TICAL; High; medium'']))
        (requestFor (js ''fn main() {}'')) emptyWorld)) = Critical"
    by blast
  from run sampleTable_ok have 2: "severity (fst (staticAnalysis sampleTable
        (replyWith (Ends [js ''Severity: Cri'', js ''TICAL; High; medium'']))
        (requestFor (js ''fn main() {}'')) emptyWorld))
      = spec_severity (concat [js ''Severity: Cri'', js ''TICAL; High; medium''])"
    by blast
  from 1 2 c sampleTable_ok show ?thesis by simp
qed

text \<open>
  Claim C4. When the model call of stage A throws (on the call or in the middle of the
  stream), the stage returns the result with severity \<open>medium\<close>, issue count 0 and
  the issues text ``Static analysis failed: '' followed by the error's message, which
  therefore holds the message; nothing is thrown further: for a request that passes the
  entry check the workflow goes on through stages B and C and ends with a result.
\<close>

theorem staticAnalysis_failure:
  assumes "ag (staticPrompt request) = Throws chunks err"
  shows "fst (staticAnalysis tbl ag request w)
           = \<lparr>issues = js ''Static analysis failed: '' @ message err,
              severity = Medium, issueCount = 0\<rparr>
       \<and> sublist (message err) (issues (fst (staticAnalysis tbl ag request w)))
       \<and> (code request \<noteq> [] \<longrightarrow>
            (\<exists>b c w'. auditorWorkflow tbl ag request w
                        = (Inr (\<lparr>issues = js ''Static analysis failed: '' @ message err,
                                 severity = Medium, issueCount = 0\<rparr>, b, c), w')
               \<and> executed w'
                   = executed w @ [''static-analysis'', ''dynamic-analysis'', ''auto-fix'']))"
proof -
  have a: "fst (staticAnalysis tbl ag request w)
           = \<lparr>issues = js ''Static analysis failed: '' @ message err,
              severity = Medium, issueCount = 0\<rparr>"
    using assms by (simp add: staticAnalysis_def)
  have "sublist (message err) (js ''Static analysis failed: '' @ message err)"
    by (rule suffix_imp_sublist) (simp add: suffix_def)
  with a workflow_runs[of tbl ag request w] show ?thesis by simp
qed

theorem staticAnalysis_failure_witness:
  "fst (staticAnalysis sampleTable (replyWith (Throws [js ''partial''] (Error (js ''quota exceeded''))))
          (requestFor (js ''fn main() {}'')) emptyWorld)
     = \<lparr>issues = js ''Static analysis failed: quota exceeded'', severity = Medium, issueCount = 0\<rparr>
   \<and> executed (snd (auditorWorkflow sampleTable
          (replyWith (Throws [js ''partial''] (Error (js ''quota exceeded''))))
          (requestFor (js ''fn main() {}'')) emptyWorld))
     = [''static-analysis'', ''dynamic-analysis'', ''auto-fix'']"
proof -
  have ag: "replyWith (Throws [js ''partial''] (Error (js ''quota exceeded'')))
              (staticPrompt (requestFor (js ''fn main() {}'')))
            = Throws [js ''partial''] (Error (js ''quota exceeded''))"
    by (simp add: replyWith_def)
  have ne: "code (requestFor (js ''fn main() {}'')) \<noteq> []"
    by (simp add: requestFor_def js_def)
  from staticAnalysis_failure
         [where ag = "replyWith (Throws [js ''partial''] (Error (js ''quota exceeded'')))"
            and request = "requestFor (js ''fn main() {}'')"
            and chunks = "[js ''partial'']" and err = "Error (js ''quota exceeded'')"
            and tbl = sampleTable and w = emptyWorld]
       ag ne
  show ?thesis by (auto simp: js_def emptyWorld_def)
qed

section \<open>Stage B\<close>

text \<open>
  When the model call of stage B throws, the stage returns no test result at all, so the
  three entries are not there on every run.
\<close>

theorem dynamicAnalysis_three_tests_counterexample:
  "map testCase (testResults (fst (dynamicAnalysis
       (replyWith (Throws [] (Error (js ''quota exceeded''))))
       (dynamicInputFor (js ''fn main() {}'')) emptyWorld)))
   \<noteq> [js ''Authorization Check Test'', js ''PDA Validation Test'', js ''Integer Overflow Test'']"
  by (simp add: dynamicAnalysis_def replyWith_def)

text \<open>
  Claim C5, as amended. When the model call of stage B succeeds, the test results are
  exactly three, named ``Authorization Check Test'', ``PDA Validation Test'' and
  ``Integer Overflow Test'' in this order, whatever the response says; when the model
  call throws, the sequence of test results is empty.
\<close>

theorem dynamicAnalysis_tests:
  "(ag (dynamicPrompt inputData) = Ends chunks \<longrightarrow>
      map testCase (testResults (fst (dynamicAnalysis ag inputData w)))
        = [js ''Authorization Check Test'', js ''PDA Validation Test'',
           js ''Integer Overflow Test''])
   \<and> (ag (dynamicPrompt inputData) = Throws chunks err \<longrightarrow>
      testResults (fst (dynamicAnalysis ag inputData w)) = [])"
  by (simp add: dynamicAnalysis_def)

theorem dynamicAnalysis_tests_witness:
  "map testCase (testResults (fst (dynamicAnalysis (replyWith (Ends [js ''All good'']))
       (dynamicInputFor (js ''fn main() {}'')) emptyWorld)))
     = [js ''Authorization Check Test'', js ''PDA Validation Test'', js ''Integer Overflow Test'']
   \<and> testResults (fst (dynamicAnalysis (replyWith (Throws [] (Error (js ''quota exceeded''))))
       (dynamicInputFor (js ''fn main() {}'')) emptyWorld)) = []"
  using dynamicAnalysis_tests
          [where ag = "replyWith (Ends [js ''All good''])"
             and inputData = "dynamicInputFor (js ''fn main() {}'')"
             and chunks = "[js ''All good'']" and w = emptyWorld]
        dynamicAnalysis_tests
          [where ag = "replyWith (Throws [] (Error (js ''quota exceeded'')))"
             and inputData = "dynamicInputFor (js ''fn main() {}'')"
             and chunks = "[]" and err = "Error (js ''quota exceeded'')" and w = emptyWorld]
  by (simp add: replyWith_def)

text \<open>
  Claim C6. When the model call of stage B succeeds, each of the three entries has passed
  exactly when its phrase is a substring of the accumulated response, with the case as
  written: ``properly authorized'', ``PDA correctly validated'', ``safe arithmetic''.
\<close>

theorem dynamicAnalysis_passed:
  assumes "ag (dynamicPrompt inputData) = Ends chunks"
  shows "map (\<lambda>t. (testCase t, passed t)) (testResults (fst (dynamicAnalysis ag inputData w)))
         = [(js ''Authorization Check Test'', sublist (js ''properly authorized'') (concat chunks)),
            (js ''PDA Validation Test'', sublist (js ''PDA correctly validated'') (concat chunks)),
            (js ''Integer Overflow Test'', sublist (js ''safe arithmetic'') (concat chunks))]"
  using assms by (simp add: dynamicAnalysis_def str_includes_sublist)

theorem dynamicAnalysis_passed_witness:
  "map passed (testResults (fst (dynamicAnalysis
       (replyWith (Ends [js ''Access is properly auth'', js ''orized; Safe Arithmetic used'']))
       (dynamicInputFor (js ''fn main() {}'')) emptyWorld)))
   = [True, False, False]"
proof -
  let ?chunks = "[js ''Access is properly auth'', js ''orized; Safe Arithmetic used'']"
  have ag: "replyWith (Ends ?chunks) (dynamicPrompt (dynamicInputFor (js ''fn main() {}'')))
            = Ends ?chunks"
    by (simp add: replyWith_def)
  have "sublist (js ''properly authorized'') (concat ?chunks)"
       "\<not> sublist (js ''PDA correctly validated'') (concat ?chunks)"
       "\<not> sublist (js ''safe arithmetic'') (concat ?chunks)"
    unfolding str_includes_sublist[symmetric] by (simp_all add: js_def)
  with dynamicAnalysis_passed
         [where ag = "replyWith (Ends ?chunks)"
            and inputData = "dynamicInputFor (js ''fn main() {}'')"
            and chunks = ?chunks and w = emptyWorld] ag
  have "map (\<lambda>t. (testCase t, passed t)) (testResults (fst (dynamicAnalysis
          (replyWith (Ends ?chunks)) (dynamicInputFor (js ''fn main() {}'')) emptyWorld)))
        = [(js ''Authorization Check Test'', True), (js ''PDA Validation Test'', False),
           (js ''Integer Overflow Test'', False)]"
    by simp
  then have "map snd (map (\<lambda>t. (testCase t, passed t)) (testResults (fst (dynamicAnalysis
          (replyWith (Ends ?chunks)) (dynamicInputFor (js ''fn main() {}'')) emptyWorld))))
        = [True, False, False]"
    by simp
  then show ?thesis by (simp add: comp_def)
qed

section \<open>Stage C\<close>

text \<open>
  Claim C2. When the model call of stage C succeeds, the confidence is 85 exactly when
  both the pattern for ``FIXED_CODE:'' and the pattern for ``CHANGES_SUMMARY:'' match the
  accumulated response, and 60 exactly when they do not both match; when the model call
  throws, the confidence is 0. So the confidence is always 0, 60 or 85. In terms of the
  text, both patterns match exactly when the response holds ``FIXED_CODE:'', white space,
  the opening fence with \<open>rust\<close> and a line break, and later a line break and a closing
  fence, and holds ``CHANGES_SUMMARY:'' somewhere.
\<close>

theorem autoFix_confidence:
  "(ag (fixPrompt inputData) = Ends chunks \<longrightarrow>
      (confidence (fst (autoFix ag inputData w)) = 85
         \<longleftrightarrow> matchGroup1 fixedCodePattern (concat chunks) \<noteq> None
             \<and> matchGroup1 summaryPattern (concat chunks) \<noteq> None)
      \<and> (confidence (fst (autoFix ag inputData w)) = 60
         \<longleftrightarrow> \<not> (matchGroup1 fixedCodePattern (concat chunks) \<noteq> None
                \<and> matchGroup1 summaryPattern (concat chunks) \<noteq> None))
      \<and> (confidence (fst (autoFix ag inputData w)) = 85
         \<longleftrightarrow> (\<exists>pre ws body post.
                concat chunks = pre @ js ''FIXED_CODE:'' @ ws @ js ''```rust\<newline>'' @ body
                                  @ js ''\<newline>```'' @ post
                \<and> (\<forall>c \<in> set ws. isWhiteSpace c))
             \<and> sublist (js ''CHANGES_SUMMARY:'') (concat chunks)))
   \<and> (ag (fixPrompt inputData) = Throws chunks err \<longrightarrow>
        confidence (fst (autoFix ag inputData w)) = 0)
   \<and> confidence (fst (autoFix ag inputData w)) \<in> {0, 60, 85}"
proof -
  have both: "matchGroup1 fixedCodePattern s \<noteq> None \<and> matchGroup1 summaryPattern s \<noteq> None
      \<longleftrightarrow> (\<exists>pre ws body post.
                s = pre @ js ''FIXED_CODE:'' @ ws @ js ''```rust\<newline>'' @ body
                      @ js ''\<newline>```'' @ post
                \<and> (\<forall>c \<in> set ws. isWhiteSpace c))
             \<and> sublist (js ''CHANGES_SUMMARY:'') s" for s
    by (simp only: fixedCodePattern_matches summaryPattern_matches)
  show ?thesis
    unfolding both[symmetric]
    by (simp add: autoFix_def Let_def split: text_stream.splits)
qed

theorem autoFix_confidence_witness:
  "confidence (fst (autoFix (replyWith (Ends fullReply)) (fixInputFor (js ''fn f() {}'')) emptyWorld)) = 85
   \<and> confidence (fst (autoFix (replyWith (Ends [js ''No changes needed.'']))
                        (fixInputFor (js ''fn f() {}'')) emptyWorld)) = 60
   \<and> confidence (fst (autoFix (replyWith (Throws [] (Error (js ''quota exceeded''))))
                        (fixInputFor (js ''fn f() {}'')) emptyWorld)) = 0"
  using autoFix_confidence
          [where ag = "replyWith (Ends fullReply)" and inputData = "fixInputFor (js ''fn f() {}'')"
             and chunks = fullReply and w = emptyWorld]
        autoFix_confidence
          [where ag = "replyWith (Ends [js ''No changes needed.''])"
             and inputData = "fixInputFor (js ''fn f() {}'')"
             and chunks = "[js ''No changes needed.'']" and w = emptyWorld]
        autoFix_confidence
          [where ag = "replyWith (Throws [] (Error (js ''quota exceeded'')))"
             and inputData = "fixInputFor (js ''fn f() {}'')"
             and chunks = "[]" and err = "Error (js ''quota exceeded'')" and w = emptyWorld]
        matcher_eval
  by (simp add: replyWith_def)

text \<open>
  A response without the marker: the pattern for ``FIXED_CODE:'' does not match it, and the
  fixed code that comes back is the response, not the code that went in.
\<close>

theorem autoFix_fallback_counterexample:
  "matchGroup1 fixedCodePattern (concat [js ''No changes needed.'']) = None
   \<and> fixedCode (fst (autoFix (replyWith (Ends [js ''No changes needed.'']))
                      (fixInputFor (js ''fn f() {}'')) emptyWorld))
       \<noteq> f_code (fixInputFor (js ''fn f() {}''))"
  using matcher_eval(3)
  by (simp add: autoFix_def replyWith_def Let_def fixInputFor_def) (simp add: js_def)

text \<open>
  Claim C3, as amended. When the model call of stage C succeeds and the pattern for
  ``FIXED_CODE:'' does not match the response, the returned fixed code is the accumulated
  response text; the returned fixed code is the original input code, unit for unit, when
  the model call throws.
\<close>

theorem autoFix_fallback:
  "(ag (fixPrompt inputData) = Ends chunks
      \<and> matchGroup1 fixedCodePattern (concat chunks) = None \<longrightarrow>
        fixedCode (fst (autoFix ag inputData w)) = concat chunks)
   \<and> (ag (fixPrompt inputData) = Throws chunks err \<longrightarrow>
        fixedCode (fst (autoFix ag inputData w)) = f_code inputData)"
  by (simp add: autoFix_def Let_def)

theorem autoFix_fallback_witness:
  "fixedCode (fst (autoFix (replyWith (Ends [js ''No changes needed.'']))
                     (fixInputFor (js ''fn f() {}'')) emptyWorld))
     = js ''No changes needed.''
   \<and> fixedCode (fst (autoFix (replyWith (Throws [js ''FIXED''] (Error (js ''quota exceeded''))))
                     (fixInputFor (js ''fn f() {}'')) emptyWorld))
     = js ''fn f() {}''"
  using autoFix_fallback
          [where ag = "replyWith (Ends [js ''No changes needed.''])"
             and inputData = "fixInputFor (js ''fn f() {}'')"
             and chunks = "[js ''No changes needed.'']" and w = emptyWorld]
        autoFix_fallback
          [where ag = "replyWith (Throws [js ''FIXED''] (Error (js ''quota exceeded'')))"
             and inputData = "fixInputFor (js ''fn f() {}'')"
             and chunks = "[js ''FIXED'']" and err = "Error (js ''quota exceeded'')"
             and w = emptyWorld]
        matcher_eval(3)
  by (simp add: replyWith_def fixInputFor_def)

section \<open>The entry check\<close>




section \<open>The helper\<close>

text \<open>
  Claim C8. The helper looks at the text only: ``Missing Solana/Anchor imports'' is among
  its errors exactly when the text holds neither of the two import lines, ``Missing
  program entry point'' exactly when it holds neither entry marker, and the warning about
  \<open>unwrap()\<close> exactly when it holds \<open>unwrap()\<close>. The workflow does not consult it:
  every request with code runs the same three steps, whatever the helper would say.
\<close>

theorem validateSolanaProgram_checks:
  "(js ''Missing Solana/Anchor imports'' \<in> set (errors (validateSolanaProgram src))
      \<longleftrightarrow> \<not> sublist (js ''use anchor_lang::prelude::*'') src
          \<and> \<not> sublist (js ''use solana_program::'') src)
   \<and> (js ''Missing program entry point'' \<in> set (errors (validateSolanaProgram src))
      \<longleftrightarrow> \<not> sublist (js ''#[program]'') src \<and> \<not> sublist (js ''entrypoint!'') src)
   \<and> (js ''Found unwrap() calls - use proper error handling''
        \<in> set (errors (validateSolanaProgram src))
      \<longleftrightarrow> sublist (js ''unwrap()'') src)
   \<and> (code request \<noteq> [] \<longrightarrow>
        executed (snd (auditorWorkflow tbl ag request w))
          = executed w @ [''static-analysis'', ''dynamic-analysis'', ''auto-fix''])"
  using error_messages_distinct error_messages_distinct[symmetric]
  by (simp add: validateSolanaProgram_def Let_def str_includes_sublist workflow_executed)

theorem validateSolanaProgram_checks_witness:
  "errors (validateSolanaProgram (js ''x.unwrap()''))
     = [js ''Missing Solana/Anchor imports'', js ''Missing program entry point'',
        js ''Found unwrap() calls - use proper error handling'']
   \<and> executed (snd (auditorWorkflow sampleTable (replyWith (Ends [js ''ok'']))
                      (requestFor (js ''x.unwrap()'')) emptyWorld))
     = [''static-analysis'', ''dynamic-analysis'', ''auto-fix'']"
proof -
  have e: "errors (validateSolanaProgram (js ''x.unwrap()''))
     = [js ''Missing Solana/Anchor imports'', js ''Missing program entry point'',
        js ''Found unwrap() calls - use proper error handling'']"
    by (simp add: validateSolanaProgram_def Let_def js_def)
  have ne: "code (requestFor (js ''x.unwrap()'')) \<noteq> []"
    by (simp add: requestFor_def js_def)
  from validateSolanaProgram_checks
         [of "js ''x.unwrap()''" "requestFor (js ''x.unwrap()'')" sampleTable
             "replyWith (Ends [js ''ok''])" emptyWorld] ne e
  show ?thesis by (simp add: emptyWorld_def)
qed

text \<open>
  Claim C9. The helper reports valid exactly when its list of errors is empty; the list
  is a subsequence of the three messages in their fixed order, so it has at most three
  entries and none twice.
\<close>

theorem validateSolanaProgram_errors:
  "(isValid (validateSolanaProgram src) \<longleftrightarrow> errors (validateSolanaProgram src) = [])
   \<and> subseq (errors (validateSolanaProgram src))
        [js ''Missing Solana/Anchor imports'', js ''Missing program entry point'',
         js ''Found unwrap() calls - use proper error handling'']
   \<and> length (errors (validateSolanaProgram src)) \<le> 3
   \<and> distinct (errors (validateSolanaProgram src))"
  using error_messages_distinct
  by (simp add: validateSolanaProgram_def Let_def)

theorem validateSolanaProgram_errors_witness:
  "isValid (validateSolanaProgram (js ''use solana_program::x; entrypoint!(f);''))
   \<and> errors (validateSolanaProgram (js ''use solana_program::x; entrypoint!(f);'')) = []
   \<and> \<not> isValid (validateSolanaProgram (js ''#[program] x.unwrap()''))
   \<and> errors (validateSolanaProgram (js ''#[program] x.unwrap()''))
       = [js ''Missing Solana/Anchor imports'',
          js ''Found unwrap() calls - use proper error handling'']"
proof -
  have 1: "errors (validateSolanaProgram (js ''use solana_program::x; entrypoint!(f);'')) = []"
    by (simp add: validateSolanaProgram_def Let_def js_def)
  have 2: "errors (validateSolanaProgram (js ''#[program] x.unwrap()''))
       = [js ''Missing Solana/Anchor imports'',
          js ''Found unwrap() calls - use proper error handling'']"
    by (simp add: validateSolanaProgram_def Let_def js_def)
  from validateSolanaProgram_errors[of "js ''use solana_program::x; entrypoint!(f);''"]
       validateSolanaProgram_errors[of "js ''#[program] x.unwrap()''"] 1 2
  show ?thesis by simp
qed

section \<open>The prompt of stage A\<close>

text \<open>
  Claim C10. A file name that is absent or the empty string gives the prompt with the
  placeholder ``program.rs'', a program identifier that is absent or the empty string
  gives it with ``Unknown''; stage A as a whole does the same for the empty string as for
  the absent field.
\<close>

theorem staticPrompt_placeholders:
  "((fileName request = None \<or> fileName request = Some []) \<longrightarrow>
      staticPrompt request
        = staticPromptText (js ''program.rs'')
            (orDefault (programId request) (js ''Unknown'')) (code request)
      \<and> sublist (js ''File: program.rs\<newline>'') (staticPrompt request))
   \<and> ((programId request = None \<or> programId request = Some []) \<longrightarrow>
      staticPrompt request
        = staticPromptText (orDefault (fileName request) (js ''program.rs''))
            (js ''Unknown'') (code request)
      \<and> sublist (js ''Program ID: Unknown\<newline>'') (staticPrompt request))
   \<and> staticAnalysis tbl ag (request\<lparr>fileName := Some []\<rparr>) w
       = staticAnalysis tbl ag (request\<lparr>fileName := None\<rparr>) w
   \<and> staticAnalysis tbl ag (request\<lparr>programId := Some []\<rparr>) w
       = staticAnalysis tbl ag (request\<lparr>programId := None\<rparr>) w"
proof -
  have f: "sublist (js ''File: '' @ fl @ js ''\<newline>'') (staticPromptText fl pid src)"
    for fl pid src
    unfolding staticPromptText_def by (rule sublist_concat_member) simp
  have p: "sublist (js ''Program ID: '' @ pid @ js ''\<newline>'') (staticPromptText fl pid src)"
    for fl pid src
    unfolding staticPromptText_def by (rule sublist_concat_member) simp
  have j: "js (a @ b) = js a @ js b" for a b by (simp add: js_def)
  have l1: "js ''File: program.rs\<newline>'' = js ''File: '' @ js ''program.rs'' @ js ''\<newline>''"
    by (simp add: js_def)
  have l2: "js ''Program ID: Unknown\<newline>'' = js ''Program ID: '' @ js ''Unknown'' @ js ''\<newline>''"
    by (simp add: js_def)
  show ?thesis
    unfolding l1 l2 by (auto simp: staticPrompt_def staticAnalysis_def orDefault_def f p)
qed

theorem staticPrompt_placeholders_witness:
  "staticPrompt \<lparr>code = js ''fn main() {}'', programId = None, fileName = Some [],
                  testCases = None\<rparr>
     = staticPromptText (js ''program.rs'') (js ''Unknown'') (js ''fn main() {}'')
   \<and> staticPrompt \<lparr>code = js ''fn main() {}'', programId = Some [], fileName = Some (js ''lib.rs''),
                  testCases = None\<rparr>
     = staticPromptText (js ''lib.rs'') (js ''Unknown'') (js ''fn main() {}'')"
  using staticPrompt_placeholders
          [of "\<lparr>code = js ''fn main() {}'', programId = None, fileName = Some [],
                testCases = None\<rparr>"]
        staticPrompt_placeholders
          [of "\<lparr>code = js ''fn main() {}'', programId = Some [], fileName = Some (js ''lib.rs''),
                testCases = None\<rparr>"]
  by (simp add: orDefault_def js_def)

end
